theory Spec2Isabelle
  imports Complex_Main
begin

section \<open>Scalars\<close>

text \<open>
  The library computes on 32-bit floats. The embedding reads every formula in exact real
  arithmetic: an argument is a real number (a finite float), and so is every result that
  IEEE arithmetic would give as a number. What IEEE arithmetic gives as an infinity or as
  NaN (\<open>x / 0\<close>, \<open>0 / 0\<close>, \<open>log 0\<close>, \<open>log\<close> of a negative number, and everything
  computed from such a value by \<open>+\<close>, \<open>-\<close>, \<open>*\<close>, \<open>log\<close> or a division by a number) is
  the one value \<open>NonFinite\<close>. Rounding and overflow are not modelled.
\<close>

datatype fval = Fin real | NonFinite

fun fadd :: "fval \<Rightarrow> fval \<Rightarrow> fval" where
  "fadd (Fin a) (Fin b) = Fin (a + b)"
| "fadd _ _ = NonFinite"

fun fsub :: "fval \<Rightarrow> fval \<Rightarrow> fval" where
  "fsub (Fin a) (Fin b) = Fin (a - b)"
| "fsub _ _ = NonFinite"

fun fmul :: "fval \<Rightarrow> fval \<Rightarrow> fval" where
  "fmul (Fin a) (Fin b) = Fin (a * b)"
| "fmul _ _ = NonFinite"

fun fneg :: "fval \<Rightarrow> fval" where
  "fneg (Fin a) = Fin (- a)"
| "fneg NonFinite = NonFinite"

text \<open>Division by a number: \<open>a / 0\<close> is an infinity or, for \<open>a = 0\<close>, NaN.\<close>

fun fdiv :: "fval \<Rightarrow> real \<Rightarrow> fval" where
  "fdiv (Fin a) b = (if b = 0 then NonFinite else Fin (a / b))"
| "fdiv NonFinite b = NonFinite"

text \<open>\<open>std::log\<close>: minus infinity at 0, NaN below 0.\<close>

fun flog :: "fval \<Rightarrow> fval" where
  "flog (Fin a) = (if 0 < a then Fin (ln a) else NonFinite)"
| "flog NonFinite = NonFinite"

section \<open>Activation functions and their gradients\<close>

text \<open>\<open>activation_functions.cpp\<close>: \<open>sigmoid\<close>.\<close>

definition sigmoid :: "real \<Rightarrow> fval" where
  "sigmoid x = (let value = 1 + exp (- x) in fdiv (Fin 1) value)"

text \<open>\<open>activation_funcs_gradient.cpp\<close>: \<open>binary_step_gradient\<close>, \<open>sigmoid_gradient\<close>.\<close>

definition binary_step_gradient :: "real \<Rightarrow> real" where
  "binary_step_gradient x = (if x = 0 then 0 else 1)"

definition sigmoid_gradient :: "real \<Rightarrow> fval" where
  "sigmoid_gradient x =
     (let sig = fdiv (Fin 1) (1 + exp (- x)) in fmul sig (fsub (Fin 1) sig))"

text \<open>
  \<open>std::max_element\<close> returns the position of the first greatest element, and the end
  position for the empty range; \<open>softmax_gradient\<close> dereferences what it returns, which
  has no value for the end position (\<open>None\<close>).
\<close>

fun max_element :: "real list \<Rightarrow> real option" where
  "max_element [] = None"
| "max_element (x # xs) = Some (fold (\<lambda>y m. if m < y then y else m) xs x)"

definition softmax_gradient :: "real list \<Rightarrow> fval list list option" where
  "softmax_gradient logits =
     (let n = length logits in
      case max_element logits of
        None \<Rightarrow> None
      | Some max_logit \<Rightarrow>
          let sum_exp = fold (\<lambda>logit s. s + exp (logit - max_logit)) logits 0;
              softmax_values =
                map (\<lambda>i. fdiv (Fin (exp (logits ! i - max_logit))) sum_exp) [0..<n]
          in Some (map (\<lambda>i. map (\<lambda>j.
                 if i = j
                 then fmul (softmax_values ! i) (fsub (Fin 1) (softmax_values ! i))
                 else fmul (fneg (softmax_values ! i)) (softmax_values ! j))
               [0..<n]) [0..<n]))"

section \<open>Loss functions\<close>

text \<open>
  One constructor for each \<open>throw\<close> of \<open>loss_functions.cpp\<close>:
  \<^item> \<open>EmptyInput\<close>: \<open>invalid_argument\<close>, "Predictions and targets cannot be empty.";
  \<^item> \<open>SizeMismatch\<close>: \<open>invalid_argument\<close>, "Predictions and targets must have the same size.";
  \<^item> \<open>ClassCountMismatch\<close>: \<open>invalid_argument\<close>, "Each prediction and target must have
    the same number of classes.";
  \<^item> \<open>PredictionOutOfRange\<close>: \<open>out_of_range\<close>, "Predictions must be in the range [0, 1].";
  \<^item> \<open>TargetOutOfRange\<close>: \<open>out_of_range\<close>, "Targets must be in the range [0, 1].";
  \<^item> \<open>TargetIndexOutOfRange\<close>: \<open>out_of_range\<close>, "Target index is out of range for
    predictions.";
  \<^item> \<open>TargetNotSign\<close>: \<open>invalid_argument\<close>, "Targets must be -1 or 1.".
\<close>

datatype error =
    EmptyInput
  | SizeMismatch
  | ClassCountMismatch
  | PredictionOutOfRange
  | TargetOutOfRange
  | TargetIndexOutOfRange
  | TargetNotSign

text \<open>The two error kinds of the specification, and the kind of each error.\<close>

datatype error_kind = ShapeMismatch | DomainViolation

fun kind :: "error \<Rightarrow> error_kind" where
  "kind EmptyInput = ShapeMismatch"
| "kind SizeMismatch = ShapeMismatch"
| "kind ClassCountMismatch = ShapeMismatch"
| "kind PredictionOutOfRange = DomainViolation"
| "kind TargetOutOfRange = DomainViolation"
| "kind TargetIndexOutOfRange = DomainViolation"
| "kind TargetNotSign = DomainViolation"

definition raises :: "error_kind \<Rightarrow> error + 'a \<Rightarrow> bool" where
  "raises k r = (case r of Inl e \<Rightarrow> kind e = k | Inr _ \<Rightarrow> False)"

text \<open>
  Each loop runs over the indices of \<open>predictions\<close> and reads \<open>targets\<close> at the same
  index; it is entered only after the two sizes were found equal, so it is a recursion
  over both lists at once.
\<close>

fun mse_loop :: "real list \<Rightarrow> real list \<Rightarrow> real \<Rightarrow> real" where
  "mse_loop (p # ps) (t # ts) mse =
     (let error = p - t in mse_loop ps ts (mse + error * error))"
| "mse_loop _ _ mse = mse"

definition mean_squared_error :: "real list \<Rightarrow> real list \<Rightarrow> error + fval" where
  "mean_squared_error predictions targets =
     (if length predictions \<noteq> length targets then Inl SizeMismatch
      else Inr (fdiv (Fin (mse_loop predictions targets 0)) (real (length predictions))))"

fun bce_loop :: "real list \<Rightarrow> real list \<Rightarrow> fval \<Rightarrow> error + fval" where
  "bce_loop (p # ps) (t # ts) bce =
     (if p < 0 \<or> p > 1 then Inl PredictionOutOfRange
      else if t < 0 \<or> t > 1 then Inl TargetOutOfRange
      else bce_loop ps ts
             (fadd bce (fadd (fmul (Fin t) (flog (Fin p)))
                             (fmul (Fin (1 - t)) (flog (Fin (1 - p)))))))"
| "bce_loop _ _ bce = Inr bce"

definition binary_cross_entropy :: "real list \<Rightarrow> real list \<Rightarrow> error + fval" where
  "binary_cross_entropy predictions targets =
     (if predictions = [] then Inl EmptyInput
      else if length predictions \<noteq> length targets then Inl SizeMismatch
      else case bce_loop predictions targets (Fin 0) of
             Inl e \<Rightarrow> Inl e
           | Inr bce \<Rightarrow> Inr (fdiv (fneg bce) (real (length predictions))))"

fun mae_loop :: "real list \<Rightarrow> real list \<Rightarrow> real \<Rightarrow> real" where
  "mae_loop (p # ps) (t # ts) mae = mae_loop ps ts (mae + \<bar>p - t\<bar>)"
| "mae_loop _ _ mae = mae"

definition mean_absolute_error :: "real list \<Rightarrow> real list \<Rightarrow> error + fval" where
  "mean_absolute_error predictions targets =
     (if length predictions \<noteq> length targets then Inl SizeMismatch
      else Inr (fdiv (Fin (mae_loop predictions targets 0)) (real (length predictions))))"

fun cce_inner :: "real list \<Rightarrow> real list \<Rightarrow> fval \<Rightarrow> fval" where
  "cce_inner (p # ps) (t # ts) cce =
     cce_inner ps ts (if t = 1 then fsub cce (flog (Fin p)) else cce)"
| "cce_inner _ _ cce = cce"

fun cce_loop :: "real list list \<Rightarrow> real list list \<Rightarrow> fval \<Rightarrow> error + fval" where
  "cce_loop (p # ps) (t # ts) cce =
     (if length p \<noteq> length t then Inl ClassCountMismatch
      else cce_loop ps ts (cce_inner p t cce))"
| "cce_loop _ _ cce = Inr cce"

definition categorical_cross_entropy ::
  "real list list \<Rightarrow> real list list \<Rightarrow> error + fval" where
  "categorical_cross_entropy predictions targets =
     (if length predictions \<noteq> length targets then Inl SizeMismatch
      else case cce_loop predictions targets (Fin 0) of
             Inl e \<Rightarrow> Inl e
           | Inr cce \<Rightarrow> Inr (fdiv cce (real (length predictions))))"

fun huber_loop :: "real list \<Rightarrow> real list \<Rightarrow> real \<Rightarrow> real \<Rightarrow> real" where
  "huber_loop (p # ps) (t # ts) delta loss =
     (let error = p - t in
      huber_loop ps ts delta
        (if \<bar>error\<bar> \<le> delta then loss + 0.5 * error * error
         else loss + delta * (\<bar>error\<bar> - 0.5 * delta)))"
| "huber_loop _ _ delta loss = loss"

definition huber_loss :: "real list \<Rightarrow> real list \<Rightarrow> real \<Rightarrow> error + fval" where
  "huber_loss predictions targets delta =
     (if length predictions \<noteq> length targets then Inl SizeMismatch
      else Inr (fdiv (Fin (huber_loop predictions targets delta 0))
                     (real (length predictions))))"

text \<open>The class indices and the hinge targets are C++ \<open>int\<close>s.\<close>

fun sparse_loop :: "real list list \<Rightarrow> int list \<Rightarrow> fval \<Rightarrow> error + fval" where
  "sparse_loop (p # ps) (t # ts) loss =
     (if t < 0 \<or> t \<ge> int (length p) then Inl TargetIndexOutOfRange
      else sparse_loop ps ts (fsub loss (flog (Fin (p ! nat t)))))"
| "sparse_loop _ _ loss = Inr loss"

definition sparse_categorical_cross_entropy ::
  "real list list \<Rightarrow> int list \<Rightarrow> error + fval" where
  "sparse_categorical_cross_entropy predictions targets =
     (if length predictions \<noteq> length targets then Inl SizeMismatch
      else case sparse_loop predictions targets (Fin 0) of
             Inl e \<Rightarrow> Inl e
           | Inr loss \<Rightarrow> Inr (fdiv loss (real (length predictions))))"

fun kl_inner :: "real list \<Rightarrow> real list \<Rightarrow> fval \<Rightarrow> error + fval" where
  "kl_inner (p # ps) (t # ts) kl_div =
     (if p < 0 \<or> p > 1 then Inl PredictionOutOfRange
      else if t < 0 \<or> t > 1 then Inl TargetOutOfRange
      else if t = 0 then kl_inner ps ts kl_div
      else kl_inner ps ts (fadd kl_div (fmul (Fin t) (flog (fdiv (Fin t) p)))))"
| "kl_inner _ _ kl_div = Inr kl_div"

fun kl_loop :: "real list list \<Rightarrow> real list list \<Rightarrow> fval \<Rightarrow> error + fval" where
  "kl_loop (p # ps) (t # ts) kl_div =
     (if length p \<noteq> length t then Inl ClassCountMismatch
      else case kl_inner p t kl_div of
             Inl e \<Rightarrow> Inl e
           | Inr kl_div' \<Rightarrow> kl_loop ps ts kl_div')"
| "kl_loop _ _ kl_div = Inr kl_div"

definition kullback_leibler_divergence ::
  "real list list \<Rightarrow> real list list \<Rightarrow> error + fval" where
  "kullback_leibler_divergence predictions targets =
     (if length predictions \<noteq> length targets then Inl SizeMismatch
      else case kl_loop predictions targets (Fin 0) of
             Inl e \<Rightarrow> Inl e
           | Inr kl_div \<Rightarrow> Inr (fdiv kl_div (real (length predictions))))"

fun hinge_loop :: "real list \<Rightarrow> int list \<Rightarrow> real \<Rightarrow> error + real" where
  "hinge_loop (p # ps) (t # ts) loss =
     (if t \<noteq> - 1 \<and> t \<noteq> 1 then Inl TargetNotSign
      else let margin = 1 - real_of_int t * p in
           hinge_loop ps ts (if margin > 0 then loss + margin else loss))"
| "hinge_loop _ _ loss = Inr loss"

definition hinge_loss :: "real list \<Rightarrow> int list \<Rightarrow> error + fval" where
  "hinge_loss predictions targets =
     (if length predictions \<noteq> length targets then Inl SizeMismatch
      else case hinge_loop predictions targets 0 of
             Inl e \<Rightarrow> Inl e
           | Inr loss \<Rightarrow> Inr (fdiv (Fin loss) (real (length predictions))))"

section \<open>The specification's formulas\<close>

text \<open>
  The Huber loss as the specification words it: per sample \<open>0.5 e\<^sup>2\<close> when
  \<open>|e| \<le> delta\<close> and \<open>delta (|e| - 0.5 delta)\<close> otherwise, \<open>e = p - t\<close>; the loss is the
  mean over the samples, their sum divided by their number.
\<close>

definition huber_term_spec :: "real \<Rightarrow> real \<times> real \<Rightarrow> real" where
  "huber_term_spec delta pt =
     (let e = fst pt - snd pt in
      if \<bar>e\<bar> \<le> delta then 0.5 * e\<^sup>2 else delta * (\<bar>e\<bar> - 0.5 * delta))"

definition mean_spec :: "real list \<Rightarrow> fval" where
  "mean_spec xs = fdiv (Fin (sum_list xs)) (real (length xs))"

text \<open>
  The max-stabilised softmax of the specification: the maximum logit is subtracted
  before exponentiating, and the exponentials are normalised by their sum.
\<close>

definition softmax_spec :: "real list \<Rightarrow> nat \<Rightarrow> real" where
  "softmax_spec logits i =
     exp (logits ! i - Max (set logits))
       / (\<Sum>k < length logits. exp (logits ! k - Max (set logits)))"

definition jacobian_spec :: "real list \<Rightarrow> nat \<Rightarrow> nat \<Rightarrow> real" where
  "jacobian_spec logits i j =
     (if i = j then softmax_spec logits i * (1 - softmax_spec logits i)
      else - softmax_spec logits i * softmax_spec logits j)"

text \<open>The sum over a row of the Jacobian, \<open>sum_j J[i][j]\<close>.\<close>

primrec fsum :: "fval list \<Rightarrow> fval" where
  "fsum [] = Fin 0"
| "fsum (v # vs) = fadd v (fsum vs)"

section \<open>Helper lemmas\<close>

lemma sigmoid_Fin: "sigmoid x = Fin (1 / (1 + exp (- x)))"
proof -
  have "1 + exp (- x) \<noteq> 0" using exp_gt_zero [of "- x"] by linarith
  then show ?thesis by (simp add: sigmoid_def)
qed

lemma sigmoid_gradient_Fin:
  "sigmoid_gradient x = Fin (1 / (1 + exp (- x)) * (1 - 1 / (1 + exp (- x))))"
proof -
  have "1 + exp (- x) \<noteq> 0" using exp_gt_zero [of "- x"] by linarith
  then show ?thesis by (simp add: sigmoid_gradient_def)
qed

lemma sigmoid_sum_real: "1 / (1 + exp (- x)) + 1 / (1 + exp x) = (1::real)"
proof -
  have nz: "1 + exp x \<noteq> 0" using exp_gt_zero [of x] by linarith
  have "1 / (1 + exp (- x)) = exp x / (1 + exp x)"
    by (simp add: exp_minus field_simps)
  then have "1 / (1 + exp (- x)) + 1 / (1 + exp x) = (exp x + 1) / (1 + exp x)"
    by (simp add: add_divide_distrib)
  also have "\<dots> = 1" using nz by simp
  finally show ?thesis .
qed

lemma mse_loop_same: "mse_loop p p acc = acc"
  by (induction p arbitrary: acc) simp_all

lemma mae_loop_same: "mae_loop p p acc = acc"
  by (induction p arbitrary: acc) simp_all

lemma cce_loop_error: "cce_loop ps ts acc = Inl e \<Longrightarrow> e = ClassCountMismatch"
  by (induction ps ts acc rule: cce_loop.induct) (auto split: if_splits)

lemma cce_loop_same_shape:
  "list_all2 (\<lambda>p t. length p = length t) ps ts \<Longrightarrow> \<exists>v. cce_loop ps ts acc = Inr v"
proof (induction ps ts acc rule: cce_loop.induct)
  case (1 p ps t ts cce)
  then show ?case by simp
qed simp_all

lemma fsum_Fin: "fsum (map Fin xs) = Fin (sum_list xs)"
  by (induction xs) simp_all

lemma huber_loop_sum:
  "length ps = length ts \<Longrightarrow>
   huber_loop ps ts delta acc = acc + sum_list (map (huber_term_spec delta) (zip ps ts))"
proof (induction ps ts arbitrary: acc rule: list_induct2)
  case Nil
  then show ?case by simp
next
  case (Cons p ps t ts)
  then show ?case
    by (simp add: huber_term_spec_def Let_def power2_eq_square)
qed

lemma max_element_Max: "xs \<noteq> [] \<Longrightarrow> max_element xs = Some (Max (set xs))"
proof (cases xs)
  case Nil
  assume "xs \<noteq> []" with Nil show ?thesis by simp
next
  case (Cons x ys)
  have "(\<lambda>y m::real. if m < y then y else m) = max"
    by (intro ext) (simp add: max_def)
  moreover have "fold max ys x = Max (set (x # ys))"
    by (simp only: Max.set_eq_fold)
  ultimately show ?thesis using Cons by (simp del: set_simps)
qed

lemma fold_add_sum: "fold (\<lambda>l s. s + f l) xs (a::real) = a + (\<Sum>k<length xs. f (xs ! k))"
proof (induction xs arbitrary: a)
  case Nil
  then show ?case by simp
next
  case (Cons x xs)
  show ?case
    by (simp add: Cons.IH lessThan_Suc_eq_insert_0 sum.reindex add.assoc
        del: sum.lessThan_Suc)
qed

lemma sum_exp_pos:
  assumes "logits \<noteq> []"
  shows "0 < (\<Sum>k<length logits. exp (logits ! k - m :: real))"
proof (rule sum_pos)
  show "finite {..<length logits}" by simp
  show "{..<length logits} \<noteq> {}" using assms by auto
  show "\<And>i. i \<in> {..<length logits} \<Longrightarrow> 0 < exp (logits ! i - m)" by simp
qed

lemma softmax_spec_sum:
  assumes "logits \<noteq> []"
  shows "(\<Sum>j<length logits. softmax_spec logits j) = 1"
proof -
  have "0 < (\<Sum>k<length logits. exp (logits ! k - Max (set logits)))"
    using assms by (rule sum_exp_pos)
  then show ?thesis
    unfolding softmax_spec_def by (simp add: sum_divide_distrib [symmetric])
qed

lemma jacobian_row_sum:
  assumes "logits \<noteq> []" and "i < length logits"
  shows "(\<Sum>j<length logits. jacobian_spec logits i j) = 0"
proof -
  let ?p = "softmax_spec logits"
  let ?n = "length logits"
  have "(\<Sum>j<?n. jacobian_spec logits i j)
        = (\<Sum>j<?n. (if i = j then ?p i else 0) - ?p i * ?p j)"
    by (rule sum.cong) (simp_all add: jacobian_spec_def algebra_simps)
  also have "\<dots> = (\<Sum>j<?n. if i = j then ?p i else 0) - ?p i * (\<Sum>j<?n. ?p j)"
    by (simp add: sum_subtractf sum_distrib_left)
  also have "(\<Sum>j<?n. if i = j then ?p i else 0) = ?p i"
    using assms(2) by simp
  also have "(\<Sum>j<?n. ?p j) = 1"
    using assms(1) by (rule softmax_spec_sum)
  finally show ?thesis by simp
qed

lemma fold_add_sum0:
  "fold (\<lambda>l s. s + f l) xs (0::real) = (\<Sum>k<length xs. f (xs ! k))"
  by (simp add: fold_add_sum)

lemma softmax_gradient_eq:
  assumes "logits \<noteq> []"
  shows "softmax_gradient logits =
    Some (map (\<lambda>i. map (\<lambda>j. Fin (jacobian_spec logits i j)) [0..<length logits])
              [0..<length logits])"
proof -
  let ?n = "length logits"
  let ?m = "Max (set logits)"
  let ?S = "(\<Sum>k<?n. exp (logits ! k - ?m))"
  let ?sv = "map (\<lambda>i. fdiv (Fin (exp (logits ! i - ?m))) ?S) [0..<?n]"
  have S: "?S \<noteq> 0" using sum_exp_pos [OF assms, of ?m] by simp
  have sv: "?sv ! i = Fin (softmax_spec logits i)" if "i < ?n" for i
    using that S by (simp add: softmax_spec_def)
  have entry: "(if i = j then fmul (?sv ! i) (fsub (Fin 1) (?sv ! i))
                else fmul (fneg (?sv ! i)) (?sv ! j)) = Fin (jacobian_spec logits i j)"
    if "i < ?n" and "j < ?n" for i j
    using that by (simp only: sv) (simp add: jacobian_spec_def)
  have rows: "map (\<lambda>i. map (\<lambda>j. if i = j then fmul (?sv ! i) (fsub (Fin 1) (?sv ! i))
                else fmul (fneg (?sv ! i)) (?sv ! j)) [0..<?n]) [0..<?n]
      = map (\<lambda>i. map (\<lambda>j. Fin (jacobian_spec logits i j)) [0..<?n]) [0..<?n]"
    by (intro map_cong refl entry) simp_all
  show ?thesis
    unfolding softmax_gradient_def Let_def max_element_Max [OF assms] option.case
      fold_add_sum0
    by (simp only: rows)
qed

lemma sum_list_map_upt: "sum_list (map f [0..<n]) = (\<Sum>j<n. f j :: real)"
  by (simp add: interv_sum_list_conv_sum_set_nat atLeast0LessThan)

lemma cce_loop_mismatch:
  "i < length ps \<Longrightarrow> i < length ts \<Longrightarrow> length (ps ! i) \<noteq> length (ts ! i) \<Longrightarrow>
   cce_loop ps ts acc = Inl ClassCountMismatch"
proof (induction ps ts acc arbitrary: i rule: cce_loop.induct)
  case (1 p ps t ts cce)
  show ?case
  proof (cases i)
    case 0
    with "1.prems" show ?thesis by simp
  next
    case (Suc k)
    with "1.prems" "1.IH" [of k] show ?thesis by simp
  qed
qed simp_all

lemma kl_inner_in_range:
  "length p = length t \<Longrightarrow> \<forall>x \<in> set p \<union> set t. 0 \<le> x \<and> x \<le> 1 \<Longrightarrow>
   \<exists>v. kl_inner p t acc = Inr v"
proof (induction p t arbitrary: acc rule: list_induct2)
  case Nil
  then show ?case by simp
next
  case (Cons x xs y ys)
  then show ?case by (simp add: not_less)
qed

lemma kl_loop_mismatch_error:
  "i < length ps \<Longrightarrow> i < length ts \<Longrightarrow> length (ps ! i) \<noteq> length (ts ! i) \<Longrightarrow>
   \<exists>e. kl_loop ps ts acc = Inl e"
proof (induction ps ts acc arbitrary: i rule: kl_loop.induct)
  case (1 p ps t ts kl_div)
  show ?case
  proof (cases i)
    case 0
    with "1.prems" show ?thesis by simp
  next
    case (Suc k)
    with "1.prems" "1.IH" [of _ k] show ?thesis
      by (auto split: sum.splits)
  qed
qed simp_all

lemma kl_loop_mismatch:
  "i < length ps \<Longrightarrow> i < length ts \<Longrightarrow> length (ps ! i) \<noteq> length (ts ! i) \<Longrightarrow>
   \<forall>k<i. length (ps ! k) = length (ts ! k)
          \<and> (\<forall>x \<in> set (ps ! k) \<union> set (ts ! k). 0 \<le> x \<and> x \<le> 1) \<Longrightarrow>
   kl_loop ps ts acc = Inl ClassCountMismatch"
proof (induction ps ts acc arbitrary: i rule: kl_loop.induct)
  case (1 p ps t ts kl_div)
  show ?case
  proof (cases i)
    case 0
    with "1.prems" show ?thesis by simp
  next
    case (Suc k)
    from "1.prems"(4) Suc have head: "length p = length t"
      "\<forall>x \<in> set p \<union> set t. 0 \<le> x \<and> x \<le> 1"
      by force+
    from kl_inner_in_range [OF head, of kl_div]
    obtain v where v: "kl_inner p t kl_div = Inr v" ..
    have rest: "\<forall>j<k. length (ps ! j) = length (ts ! j)
          \<and> (\<forall>x \<in> set (ps ! j) \<union> set (ts ! j). 0 \<le> x \<and> x \<le> 1)"
    proof (intro allI impI)
      fix j assume "j < k"
      then have "Suc j < i" using Suc by simp
      with "1.prems"(4) show "length (ps ! j) = length (ts ! j)
          \<and> (\<forall>x \<in> set (ps ! j) \<union> set (ts ! j). 0 \<le> x \<and> x \<le> 1)"
        by fastforce
    qed
    from "1.prems"(1,2,3) Suc have "k < length ps" "k < length ts"
      "length (ps ! k) \<noteq> length (ts ! k)" by simp_all
    from "1.IH" [OF _ v this rest] head(1) v show ?thesis by simp
  qed
qed simp_all

section \<open>Activation gradients\<close>

text \<open>
  C1. The claim: \<open>binary_step_gradient x\<close> is 0 for every \<open>x\<close>. The function returns 0
  only at \<open>x = 0\<close>; at \<open>x = 1\<close> it returns 1.
\<close>

theorem binary_step_gradient_at_one:
  "binary_step_gradient 1 = 1 \<and> binary_step_gradient 1 \<noteq> 0 \<and> binary_step_gradient 0 = 0"
  by (simp add: binary_step_gradient_def)

text \<open>
  C5. For every (finite) \<open>x\<close>, \<open>sigmoid_gradient x\<close> is \<open>sigmoid x * (1 - sigmoid x)\<close>:
  the formula written out inside \<open>sigmoid_gradient\<close> agrees with the library's
  \<open>sigmoid\<close>, and both values are numbers.
\<close>

theorem sigmoid_gradient_eq_sigmoid:
  "sigmoid_gradient x = fmul (sigmoid x) (fsub (Fin 1) (sigmoid x))
   \<and> (\<exists>s. sigmoid x = Fin s \<and> sigmoid_gradient x = Fin (s * (1 - s)))"
  by (simp add: sigmoid_Fin sigmoid_gradient_Fin)

text \<open>
  C6. For every (finite) \<open>x\<close>, \<open>sigmoid x + sigmoid (- x)\<close> is 1, in exact real
  arithmetic.
\<close>

theorem sigmoid_symmetry: "fadd (sigmoid x) (sigmoid (- x)) = Fin 1"
  using sigmoid_sum_real [of x] by (simp add: sigmoid_Fin)

text \<open>
  C4. For every non-empty logits sequence of length \<open>n\<close>, \<open>softmax_gradient\<close> returns
  the \<open>n \<times> n\<close> matrix \<open>J\<close> of the max-stabilised softmax probabilities \<open>p\<close>
  (\<open>J[i][i] = p\<^sub>i (1 - p\<^sub>i)\<close>, \<open>J[i][j] = - p\<^sub>i p\<^sub>j\<close> for \<open>i \<noteq> j\<close>), and every row
  of \<open>J\<close> sums to 0, in exact real arithmetic.
\<close>

theorem softmax_gradient_rows_sum_zero:
  "logits \<noteq> [] \<Longrightarrow>
   \<exists>J. softmax_gradient logits = Some J \<and> length J = length logits
     \<and> (\<forall>i<length logits.
           length (J ! i) = length logits
           \<and> (\<forall>j<length logits. J ! i ! j = Fin (jacobian_spec logits i j))
           \<and> fsum (J ! i) = Fin 0)"
proof -
  assume ne: "logits \<noteq> []"
  let ?n = "length logits"
  let ?J = "map (\<lambda>i. map (\<lambda>j. Fin (jacobian_spec logits i j)) [0..<?n]) [0..<?n]"
  have rowsum: "fsum (?J ! i) = Fin 0" if "i < ?n" for i
  proof -
    have "?J ! i = map Fin (map (jacobian_spec logits i) [0..<?n])"
      using that by simp
    then have "fsum (?J ! i) = Fin (sum_list (map (jacobian_spec logits i) [0..<?n]))"
      by (simp only: fsum_Fin)
    also have "\<dots> = Fin 0"
      by (simp only: sum_list_map_upt jacobian_row_sum [OF ne that])
    finally show ?thesis .
  qed
  have "softmax_gradient logits = Some ?J" using ne by (rule softmax_gradient_eq)
  moreover have "length ?J = ?n" by simp
  moreover have "\<forall>i<?n. length (?J ! i) = ?n
       \<and> (\<forall>j<?n. ?J ! i ! j = Fin (jacobian_spec logits i j)) \<and> fsum (?J ! i) = Fin 0"
    using rowsum by simp
  ultimately show ?thesis by blast
qed

theorem softmax_gradient_rows_sum_zero_witness:
  "[0, 0 :: real] \<noteq> []
   \<and> (\<exists>J. softmax_gradient [0, 0] = Some J \<and> length J = 2
        \<and> fsum (J ! 0) = Fin 0 \<and> fsum (J ! 1) = Fin 0)"
  using softmax_gradient_rows_sum_zero [of "[0, 0]"] by auto

text \<open>
  C10. \<open>softmax_gradient\<close> needs a non-empty logits sequence: for the empty one the
  maximum element it starts from has no value, and for every non-empty input of length
  \<open>n\<close> it returns a matrix of \<open>n\<close> rows of length \<open>n\<close>.
\<close>

theorem softmax_gradient_needs_nonempty:
  "softmax_gradient [] = None
   \<and> (logits \<noteq> [] \<longrightarrow>
        (\<exists>J. softmax_gradient logits = Some J \<and> length J = length logits
           \<and> (\<forall>row \<in> set J. length row = length logits)))"
  by (auto simp: softmax_gradient_eq) (simp add: softmax_gradient_def)

theorem softmax_gradient_needs_nonempty_witness:
  "[1, 2, 3 :: real] \<noteq> [] \<and> softmax_gradient [] = None
   \<and> (\<exists>J. softmax_gradient [1, 2, 3] = Some J \<and> length J = 3
         \<and> length (J ! 0) = 3 \<and> length (J ! 1) = 3 \<and> length (J ! 2) = 3)"
  using softmax_gradient_needs_nonempty [of "[1, 2, 3]"] by auto

section \<open>Loss functions: values\<close>

text \<open>
  C8, as stated: \<open>mean_squared_error p p\<close> and \<open>mean_absolute_error p p\<close> are 0 for
  every vector \<open>p\<close>, the empty one included. For the empty vector both divide 0 by 0,
  which is not the number 0.
\<close>

theorem loss_of_empty_self_not_zero:
  "mean_squared_error [] [] \<noteq> Inr (Fin 0) \<and> mean_absolute_error [] [] \<noteq> Inr (Fin 0)"
  by (simp add: mean_squared_error_def mean_absolute_error_def)

text \<open>
  C8, amended: for every non-empty vector \<open>p\<close> whose entries are all finite numbers
  (the entries of a \<open>real list\<close>; a vector holding an infinity or NaN is outside this
  statement), \<open>mean_squared_error p p\<close> and \<open>mean_absolute_error p p\<close> are 0.
\<close>

theorem loss_of_self_zero:
  "p \<noteq> [] \<Longrightarrow>
   mean_squared_error p p = Inr (Fin 0) \<and> mean_absolute_error p p = Inr (Fin 0)"
  by (simp add: mean_squared_error_def mean_absolute_error_def mse_loop_same mae_loop_same)

theorem loss_of_self_zero_witness:
  "[1, - 2, 1 / 2 :: real] \<noteq> []
   \<and> mean_squared_error [1, - 2, 1 / 2] [1, - 2, 1 / 2] = Inr (Fin 0)
   \<and> mean_absolute_error [1, - 2, 1 / 2] [1, - 2, 1 / 2] = Inr (Fin 0)"
  using loss_of_self_zero [of "[1, - 2, 1 / 2]"] by simp

text \<open>
  C7. For equal-length predictions and targets and any \<open>delta\<close>, \<open>huber_loss\<close> is the
  mean over the samples of \<open>0.5 e\<^sup>2\<close> when \<open>|e| \<le> delta\<close> and
  \<open>delta (|e| - 0.5 delta)\<close> otherwise, \<open>e = p - t\<close>; and
  \<open>huber_loss [3] [0] 1\<close> is \<open>2.5\<close>.
\<close>

theorem huber_loss_mean_of_terms:
  "(length predictions = length targets \<longrightarrow>
     huber_loss predictions targets delta
       = Inr (mean_spec (map (huber_term_spec delta) (zip predictions targets))))
   \<and> huber_loss [3] [0] 1 = Inr (Fin (5 / 2))"
  by (simp add: huber_loss_def mean_spec_def huber_loop_sum)

theorem huber_loss_mean_of_terms_witness:
  "length [1, 5 :: real] = length [1, 2 :: real]
   \<and> huber_loss [1, 5] [1, 2] 2 = Inr (Fin 2)"
  using huber_loss_mean_of_terms [of "[1, 5]" "[1, 2]" 2]
  by (simp add: mean_spec_def huber_term_spec_def)

section \<open>Loss functions: errors\<close>

text \<open>
  C2, as stated: \<open>categorical_cross_entropy\<close> raises DomainViolation whenever an entry
  of the predictions or targets lies outside \<open>[0, 1]\<close>. It returns a number for the
  prediction \<open>1.5\<close> (target 0) and for the prediction 2 (target 1).
\<close>

theorem cce_out_of_range_returns:
  "(3 / 2 :: real) > 1
   \<and> categorical_cross_entropy [[3 / 2]] [[0]] = Inr (Fin 0)
   \<and> categorical_cross_entropy [[2]] [[1]] = Inr (Fin (- ln 2))
   \<and> \<not> raises DomainViolation (categorical_cross_entropy [[3 / 2]] [[0]])"
  by (simp add: categorical_cross_entropy_def raises_def)

text \<open>
  C2, amended: \<open>categorical_cross_entropy\<close> checks no range. It never raises
  DomainViolation, and whenever predictions and targets have the same batch length and
  the same class count in every sample it returns a value, whatever the entries are.
\<close>

theorem cce_never_domain_violation:
  "\<not> raises DomainViolation (categorical_cross_entropy predictions targets)
   \<and> (list_all2 (\<lambda>p t. length p = length t) predictions targets \<longrightarrow>
        (\<exists>v. categorical_cross_entropy predictions targets = Inr v))"
proof
  show "\<not> raises DomainViolation (categorical_cross_entropy predictions targets)"
    by (auto simp: categorical_cross_entropy_def raises_def
             split: sum.splits dest: cce_loop_error)
next
  show "list_all2 (\<lambda>p t. length p = length t) predictions targets \<longrightarrow>
        (\<exists>v. categorical_cross_entropy predictions targets = Inr v)"
  proof
    assume shape: "list_all2 (\<lambda>p t. length p = length t) predictions targets"
    then have len: "length predictions = length targets"
      by (rule list_all2_lengthD)
    from cce_loop_same_shape [OF shape, of "Fin 0"]
    obtain v where "cce_loop predictions targets (Fin 0) = Inr v" ..
    with len show "\<exists>v. categorical_cross_entropy predictions targets = Inr v"
      by (simp add: categorical_cross_entropy_def)
  qed
qed

theorem cce_never_domain_violation_witness:
  "list_all2 (\<lambda>p t. length p = length t) [[- 1, 5], [7 :: real]] [[1, 0], [3 :: real]]
   \<and> \<not> raises DomainViolation (categorical_cross_entropy [[- 1, 5], [7]] [[1, 0], [3]])
   \<and> (\<exists>v. categorical_cross_entropy [[- 1, 5], [7]] [[1, 0], [3]] = Inr v)"
  using cce_never_domain_violation [of "[[- 1, 5], [7]]" "[[1, 0], [3]]"] by simp

text \<open>
  C9. Only \<open>binary_cross_entropy\<close> rejects empty input. Every other loss, given two
  empty collections, raises nothing: it passes the size check, iterates over nothing
  and returns the zero accumulator divided by the zero length (0 / 0).
\<close>

theorem empty_input_behaviour:
  "binary_cross_entropy [] targets = Inl EmptyInput
   \<and> mean_squared_error [] [] = Inr (fdiv (Fin 0) 0)
   \<and> mean_absolute_error [] [] = Inr (fdiv (Fin 0) 0)
   \<and> categorical_cross_entropy [] [] = Inr (fdiv (Fin 0) 0)
   \<and> sparse_categorical_cross_entropy [] [] = Inr (fdiv (Fin 0) 0)
   \<and> kullback_leibler_divergence [] [] = Inr (fdiv (Fin 0) 0)
   \<and> hinge_loss [] [] = Inr (fdiv (Fin 0) 0)
   \<and> huber_loss [] [] delta = Inr (fdiv (Fin 0) 0)
   \<and> fdiv (Fin 0) 0 = NonFinite"
  by (simp add: binary_cross_entropy_def mean_squared_error_def mean_absolute_error_def
      categorical_cross_entropy_def sparse_categorical_cross_entropy_def
      kullback_leibler_divergence_def hinge_loss_def huber_loss_def)

text \<open>
  C3, as stated: every multi-argument loss raises ShapeMismatch when predictions and
  targets differ in length at any nesting level. \<open>kullback_leibler_divergence\<close>
  checks the class counts of a sample when its loop reaches that sample, after the range
  checks of the samples before it: here the second sample has two predictions for one
  target, and the call raises the DomainViolation of the first sample.
\<close>

theorem kl_range_error_before_class_count:
  "length [[2], [1 / 2, 1 / 2 :: real]] = length [[0], [1 :: real]]
   \<and> length ([[2], [1 / 2, 1 / 2 :: real]] ! 1) \<noteq> length ([[0], [1 :: real]] ! 1)
   \<and> kullback_leibler_divergence [[2], [1 / 2, 1 / 2]] [[0], [1]] = Inl PredictionOutOfRange
   \<and> \<not> raises ShapeMismatch (kullback_leibler_divergence [[2], [1 / 2, 1 / 2]] [[0], [1]])
   \<and> raises DomainViolation (kullback_leibler_divergence [[2], [1 / 2, 1 / 2]] [[0], [1]])"
  by (simp add: kullback_leibler_divergence_def raises_def)

text \<open>
  C3, amended: every multi-argument loss raises ShapeMismatch when the batch lengths of
  predictions and targets differ (\<open>binary_cross_entropy\<close> with its empty-input error
  when the predictions are empty). With equal batch lengths and a sample \<open>i\<close> whose
  class counts differ, \<open>categorical_cross_entropy\<close> raises ShapeMismatch, and
  \<open>kullback_leibler_divergence\<close> raises an error, which is ShapeMismatch when the
  samples before \<open>i\<close> have equal class counts and all their entries in \<open>[0, 1]\<close>.
\<close>

theorem size_mismatch_raised:
  "(length ps \<noteq> length ts \<longrightarrow>
      mean_squared_error ps ts = Inl SizeMismatch
      \<and> mean_absolute_error ps ts = Inl SizeMismatch
      \<and> huber_loss ps ts delta = Inl SizeMismatch
      \<and> raises ShapeMismatch (binary_cross_entropy ps ts))
   \<and> (length qs \<noteq> length ks \<longrightarrow> hinge_loss qs ks = Inl SizeMismatch)
   \<and> (length bs \<noteq> length ns \<longrightarrow>
        sparse_categorical_cross_entropy bs ns = Inl SizeMismatch)
   \<and> (length bs \<noteq> length cs \<longrightarrow>
        categorical_cross_entropy bs cs = Inl SizeMismatch
        \<and> kullback_leibler_divergence bs cs = Inl SizeMismatch)
   \<and> (length ds = length es \<and> i < length ds \<and> length (ds ! i) \<noteq> length (es ! i) \<longrightarrow>
        categorical_cross_entropy ds es = Inl ClassCountMismatch
        \<and> (\<exists>e. kullback_leibler_divergence ds es = Inl e)
        \<and> ((\<forall>k<i. length (ds ! k) = length (es ! k)
                   \<and> (\<forall>x \<in> set (ds ! k) \<union> set (es ! k). 0 \<le> x \<and> x \<le> 1)) \<longrightarrow>
             kullback_leibler_divergence ds es = Inl ClassCountMismatch))
   \<and> kind SizeMismatch = ShapeMismatch \<and> kind ClassCountMismatch = ShapeMismatch"
proof (intro conjI impI)
  assume "length ps \<noteq> length ts"
  then show "mean_squared_error ps ts = Inl SizeMismatch"
    and "mean_absolute_error ps ts = Inl SizeMismatch"
    and "huber_loss ps ts delta = Inl SizeMismatch"
    and "raises ShapeMismatch (binary_cross_entropy ps ts)"
    by (simp_all add: mean_squared_error_def mean_absolute_error_def huber_loss_def
        binary_cross_entropy_def raises_def)
next
  assume "length qs \<noteq> length ks"
  then show "hinge_loss qs ks = Inl SizeMismatch" by (simp add: hinge_loss_def)
next
  assume "length bs \<noteq> length ns"
  then show "sparse_categorical_cross_entropy bs ns = Inl SizeMismatch"
    by (simp add: sparse_categorical_cross_entropy_def)
next
  assume "length bs \<noteq> length cs"
  then show "categorical_cross_entropy bs cs = Inl SizeMismatch"
    and "kullback_leibler_divergence bs cs = Inl SizeMismatch"
    by (simp_all add: categorical_cross_entropy_def kullback_leibler_divergence_def)
next
  assume a: "length ds = length es \<and> i < length ds \<and> length (ds ! i) \<noteq> length (es ! i)"
  then have i: "i < length ds" "i < length es" "length (ds ! i) \<noteq> length (es ! i)"
    by simp_all
  from cce_loop_mismatch [OF i] a
  show "categorical_cross_entropy ds es = Inl ClassCountMismatch"
    by (simp add: categorical_cross_entropy_def)
  from kl_loop_mismatch_error [OF i, of "Fin 0"] a
  show "\<exists>e. kullback_leibler_divergence ds es = Inl e"
    by (auto simp: kullback_leibler_divergence_def)
  assume "\<forall>k<i. length (ds ! k) = length (es ! k)
                   \<and> (\<forall>x \<in> set (ds ! k) \<union> set (es ! k). 0 \<le> x \<and> x \<le> 1)"
  from kl_loop_mismatch [OF i this] a
  show "kullback_leibler_divergence ds es = Inl ClassCountMismatch"
    by (simp add: kullback_leibler_divergence_def)
qed simp_all

theorem size_mismatch_raised_witness:
  "length [1, 2, 3 :: real] \<noteq> length [1, 2 :: real]
   \<and> length [4 / 5 :: real] \<noteq> length [1, 1 :: int]
   \<and> length [[7 / 10, 1 / 5, 1 / 10 :: real]] \<noteq> length ([] :: int list)
   \<and> length [[7 / 10, 1 / 5, 1 / 10 :: real]] \<noteq> length ([] :: real list list)
   \<and> length [[1 / 5, 4 / 5], [1 :: real]] = length [[0, 1], [0, 1 :: real]]
   \<and> length ([[1 / 5, 4 / 5], [1 :: real]] ! 1) \<noteq> length ([[0, 1], [0, 1 :: real]] ! 1)
   \<and> mean_squared_error [1, 2, 3] [1, 2] = Inl SizeMismatch
   \<and> mean_absolute_error [1, 2, 3] [1, 2] = Inl SizeMismatch
   \<and> huber_loss [1, 2, 3] [1, 2] 1 = Inl SizeMismatch
   \<and> raises ShapeMismatch (binary_cross_entropy [1, 2, 3] [1, 2])
   \<and> hinge_loss [4 / 5] [1, 1] = Inl SizeMismatch
   \<and> sparse_categorical_cross_entropy [[7 / 10, 1 / 5, 1 / 10]] [] = Inl SizeMismatch
   \<and> categorical_cross_entropy [[7 / 10, 1 / 5, 1 / 10]] [] = Inl SizeMismatch
   \<and> kullback_leibler_divergence [[7 / 10, 1 / 5, 1 / 10]] [] = Inl SizeMismatch
   \<and> categorical_cross_entropy [[1 / 5, 4 / 5], [1]] [[0, 1], [0, 1]] = Inl ClassCountMismatch
   \<and> kullback_leibler_divergence [[1 / 5, 4 / 5], [1]] [[0, 1], [0, 1]] = Inl ClassCountMismatch"
  using size_mismatch_raised [of "[1, 2, 3]" "[1, 2]" 1 "[4 / 5]" "[1, 1]" "[[7 / 10, 1 / 5, 1 / 10]]" "[]"
               "[]" "[[1 / 5, 4 / 5], [1]]" "[[0, 1], [0, 1]]" 1]
  by simp

end
